theory Spec2Isabelle
  imports Main "HOL-Library.Word" "HOL-Library.Signed_Division"
begin

section \<open>Failures\<close>

text \<open>
  The ways a call of the modelled code ends without a result: a failed \<open>assert\<close>, a failed
  \<open>CHECK_JUST\<close> (the process aborts), a read through a null handle or pointer, and a call
  outside the life cycle of a status buffer.
\<close>

datatype error = AssertionFailed | CheckFailed | NullDereference | LifecycleViolation

section \<open>Index arithmetic of the broadcast primitives\<close>


subsection \<open>\<open>FastIntegerMath<T>\<close>\<close>




subsection \<open>\<open>IndexToOffsetWithStrideCalculator<T, N>\<close>\<close>

record IndexToOffsetWithStrideCalculator =
  stride :: "int list"

text \<open>
  \<open>InitStrides(dims, strides, n)\<close>: the first loop runs \<open>i = n, ..., N - 1\<close>, the second
  \<open>i = n - 1, ..., 0\<close>. The member array starts with whatever the object held.
\<close>

definition InitStrides ::
  "nat \<Rightarrow> IndexToOffsetWithStrideCalculator \<Rightarrow> int list \<Rightarrow> int list \<Rightarrow> nat
    \<Rightarrow> IndexToOffsetWithStrideCalculator" where
  "InitStrides N this dims strides n =
     (let s1 = fold (\<lambda>i s. s[i := 1]) [n..<N] (stride this);
          s2 = fold (\<lambda>i s. s[i := strides ! i]) (rev [0..<n]) s1
      in this\<lparr>stride := s2\<rparr>)"

text \<open>The two constructors: \<open>(dims, strides)\<close> passes \<open>N\<close>, \<open>(dims, strides, n)\<close> passes \<open>n\<close>.\<close>

definition IndexToOffsetWithStrideCalculator_ctor ::
  "nat \<Rightarrow> IndexToOffsetWithStrideCalculator \<Rightarrow> int list \<Rightarrow> int list
    \<Rightarrow> IndexToOffsetWithStrideCalculator" where
  "IndexToOffsetWithStrideCalculator_ctor N this dims strides = InitStrides N this dims strides N"

definition IndexToOffsetWithStrideCalculator_ctor_n ::
  "nat \<Rightarrow> IndexToOffsetWithStrideCalculator \<Rightarrow> int list \<Rightarrow> int list \<Rightarrow> nat
    \<Rightarrow> IndexToOffsetWithStrideCalculator" where
  "IndexToOffsetWithStrideCalculator_ctor_n N this dims strides n = InitStrides N this dims strides n"

text \<open>\<open>T NdIndexToOffset(const T* index) const\<close>\<close>

definition NdIndexToOffset :: "nat \<Rightarrow> IndexToOffsetWithStrideCalculator \<Rightarrow> int list \<Rightarrow> int" where
  "NdIndexToOffset N this index =
     (let offset = fold (\<lambda>i offset. offset + index ! i * stride this ! i) [0..<N - 1] 0
      in offset + index ! (N - 1))"

text \<open>
  \<open>T NdIndexToOffset(const T* index, int n) const\<close>: the \<open>assert(n <= N)\<close> is a branch of
  the model; the loop visits every \<open>i < N\<close> and adds a term where \<open>i < n\<close>.
\<close>

definition NdIndexToOffset_n ::
  "nat \<Rightarrow> IndexToOffsetWithStrideCalculator \<Rightarrow> int list \<Rightarrow> int \<Rightarrow> error + int" where
  "NdIndexToOffset_n N this index n =
     (if \<not> n \<le> int N then Inl AssertionFailed
      else Inr (fold (\<lambda>i offset. if int i < n then offset + index ! i * stride this ! i else offset)
                  [0..<N] 0))"

subsection \<open>\<open>OffsetToIndexWithStrideCalculator<T, N>\<close>\<close>







section \<open>The virtual machine: identities, status buffers and streams\<close>

subsection \<open>\<open>LogicalObjectId\<close>\<close>

text \<open>
  \<^verbatim>\<open>logical_object_id.msg.h\<close> declares the message: a oneof \<open>ptr_type\<close> with the two
  \<open>uint64_t\<close> fields \<open>remote_value\<close> and \<open>local_value\<close>, and comparison operators by
  \<open>memcmp\<close>. A value is the case of the oneof that is set and the 64 bits the two fields
  share.
\<close>

datatype ptr_type_case = remote_value | local_value

record LogicalObjectId =
  ptr_type_tag :: ptr_type_case
  ptr_type_payload :: "64 word"

text \<open>
  Modelled from the spec: the macros \<open>FLAT_MSG_DEFINE_ONEOF\<close> and
  \<open>FLAT_MSG_DEFINE_COMPARE_OPERATORS_BY_MEMCMP\<close> of \<^verbatim>\<open>flat_msg.h\<close>, which is not among the
  sources. An id is constructed as \<open>Local(id)\<close> or \<open>Remote(id)\<close> and has exactly one active
  field; its in-memory representation holds the tag and the payload, and two ids are equal
  iff their full representations are equal byte for byte. The representation chosen here
  is the 8 bytes of the union, the case tag as a 32-bit number (the fields numbered 1 and
  2 in the order they are declared) and 4 bytes of zeroed padding, all little-endian.
\<close>

definition Remote :: "64 word \<Rightarrow> LogicalObjectId" where
  "Remote v = \<lparr>ptr_type_tag = remote_value, ptr_type_payload = v\<rparr>"

definition Local :: "64 word \<Rightarrow> LogicalObjectId" where
  "Local v = \<lparr>ptr_type_tag = local_value, ptr_type_payload = v\<rparr>"

definition bytes_of :: "nat \<Rightarrow> 'a::len word \<Rightarrow> 8 word list" where
  "bytes_of n w = map (\<lambda>i. ucast (drop_bit (8 * i) w)) [0..<n]"

fun case_number :: "ptr_type_case \<Rightarrow> 32 word" where
  "case_number remote_value = 1"
| "case_number local_value = 2"

definition representation :: "LogicalObjectId \<Rightarrow> 8 word list" where
  "representation x =
     bytes_of 8 (ptr_type_payload x) @ bytes_of 4 (case_number (ptr_type_tag x)) @ replicate 4 0"

text \<open>\<open>memcmp\<close> over two buffers of the same size: the sign of the first differing byte pair.\<close>

fun memcmp :: "8 word list \<Rightarrow> 8 word list \<Rightarrow> int" where
  "memcmp (x # xs) (y # ys) = (if x = y then memcmp xs ys else if x < y then - 1 else 1)"
| "memcmp _ _ = 0"

definition LogicalObjectId_eq :: "LogicalObjectId \<Rightarrow> LogicalObjectId \<Rightarrow> bool" where
  "LogicalObjectId_eq a b = (memcmp (representation a) (representation b) = 0)"

subsection \<open>The instruction-status protocol\<close>

text \<open>
  Modelled from the spec: the bodies of \<open>InitInstructionStatus\<close>,
  \<open>DeleteInstructionStatus\<close>, \<open>QueryInstructionStatusDone\<close> and \<open>Compute\<close> (\<open>Run\<close> in the
  older hierarchy), which \<^verbatim>\<open>device_helper_stream_type.h\<close> and \<^verbatim>\<open>host_vm_stream_type.h\<close>
  declare and no source file defines. Per instruction the states are \<open>Submitted\<close>, \<open>StatusInitialized\<close>, \<open>Executing\<close>, \<open>Done\<close> and \<open>StatusDeleted\<close>.
  \<open>init_instruction_status\<close> writes the initial bookkeeping; \<open>compute\<close> on a synchronous
  backend runs the payload to completion and marks the status done before it returns, on
  an asynchronous backend it enqueues the work, and the backend's own completion signal
  later marks it done; \<open>query_instruction_status_done\<close> is a check that changes nothing;
  \<open>delete_instruction_status\<close> is called once the instruction is known to be complete.
  The spec leaves a call out of this order undefined and asks an implementation to fail
  loudly there: such a call is the error \<open>LifecycleViolation\<close>.
\<close>

datatype InstructionState = Submitted | StatusInitialized | Executing | Done | StatusDeleted

datatype Backend = Synchronous | Asynchronous

text \<open>
  An instruction carries its payload, a transformer of the device state \<open>'m\<close>, and the
  state its status buffer records.
\<close>

record 'm Instruction =
  payload :: "'m \<Rightarrow> 'm"
  status :: InstructionState

definition init_instruction_status :: "'m Instruction \<Rightarrow> error + 'm Instruction" where
  "init_instruction_status instr =
     (if status instr = Submitted then Inr (instr\<lparr>status := StatusInitialized\<rparr>)
      else Inl LifecycleViolation)"

definition compute ::
  "Backend \<Rightarrow> 'm Instruction \<Rightarrow> 'm \<Rightarrow> error + 'm Instruction \<times> 'm" where
  "compute backend instr mem =
     (if status instr \<noteq> StatusInitialized then Inl LifecycleViolation
      else case backend of
        Synchronous \<Rightarrow> Inr (instr\<lparr>status := Done\<rparr>, payload instr mem)
      | Asynchronous \<Rightarrow> Inr (instr\<lparr>status := Executing\<rparr>, mem))"

text \<open>The completion signal of an asynchronous backend: the enqueued work has run.\<close>

definition completion_signal ::
  "'m Instruction \<Rightarrow> 'm \<Rightarrow> error + 'm Instruction \<times> 'm" where
  "completion_signal instr mem =
     (if status instr = Executing then Inr (instr\<lparr>status := Done\<rparr>, payload instr mem)
      else Inl LifecycleViolation)"

definition query_instruction_status_done :: "'m Instruction \<Rightarrow> error + bool" where
  "query_instruction_status_done instr =
     (if status instr \<in> {StatusInitialized, Executing, Done} then Inr (status instr = Done)
      else Inl LifecycleViolation)"

definition delete_instruction_status :: "'m Instruction \<Rightarrow> error + 'm Instruction" where
  "delete_instruction_status instr =
     (if status instr = Done then Inr (instr\<lparr>status := StatusDeleted\<rparr>)
      else Inl LifecycleViolation)"

text \<open>
  A scheduler's calls on one instruction, and the run of a list of them: the run stops at
  the first error and collects what the polls returned, oldest first.
\<close>

datatype call = Init | Compute | Signal | Query | Delete

fun step ::
  "Backend \<Rightarrow> call \<Rightarrow> 'm Instruction \<times> 'm \<times> bool list
    \<Rightarrow> error + 'm Instruction \<times> 'm \<times> bool list" where
  "step backend Init (instr, mem, polls) =
     (case init_instruction_status instr of Inl e \<Rightarrow> Inl e
      | Inr instr' \<Rightarrow> Inr (instr', mem, polls))"
| "step backend Compute (instr, mem, polls) =
     (case compute backend instr mem of Inl e \<Rightarrow> Inl e
      | Inr (instr', mem') \<Rightarrow> Inr (instr', mem', polls))"
| "step backend Signal (instr, mem, polls) =
     (case completion_signal instr mem of Inl e \<Rightarrow> Inl e
      | Inr (instr', mem') \<Rightarrow> Inr (instr', mem', polls))"
| "step backend Query (instr, mem, polls) =
     (case query_instruction_status_done instr of Inl e \<Rightarrow> Inl e
      | Inr done \<Rightarrow> Inr (instr, mem, polls @ [done]))"
| "step backend Delete (instr, mem, polls) =
     (case delete_instruction_status instr of Inl e \<Rightarrow> Inl e
      | Inr instr' \<Rightarrow> Inr (instr', mem, polls))"

fun run ::
  "Backend \<Rightarrow> call list \<Rightarrow> 'm Instruction \<times> 'm \<times> bool list
    \<Rightarrow> error + 'm Instruction \<times> 'm \<times> bool list" where
  "run backend [] st = Inr st"
| "run backend (c # cs) st =
     (case step backend c st of Inl e \<Rightarrow> Inl e | Inr st' \<Rightarrow> run backend cs st')"

text \<open>
  The call in which the payload runs: \<open>compute\<close> on a synchronous backend, the completion
  signal on an asynchronous one.
\<close>

fun execution_step :: "Backend \<Rightarrow> call" where
  "execution_step Synchronous = Compute"
| "execution_step Asynchronous = Signal"

text \<open>A poll sequence is stable when no \<open>True\<close> is followed by a \<open>False\<close>.\<close>

fun stable :: "bool list \<Rightarrow> bool" where
  "stable [] = True"
| "stable (b # bs) = (if b then list_all (\<lambda>x. x) bs else stable bs)"

subsection \<open>\<open>Stream\<close>\<close>

text \<open>
  \<^verbatim>\<open>stream.cpp\<close> defines \<open>Stream::__Init__\<close>, \<open>Stream::device_id\<close> and
  \<open>Stream::stream_type\<close>; \<open>'r\<close> is the type of stream roles, \<open>'st\<close> the type of pointers
  to \<open>StreamType\<close> objects and \<open>'c\<close> the type of device contexts.
\<close>

text \<open>
  Modelled from the spec: the declarations of \<open>Device\<close>, \<open>Symbol\<close> and the members of
  \<open>Stream\<close> (\<^verbatim>\<open>device.h\<close>, \<^verbatim>\<open>symbol.h\<close> and \<^verbatim>\<open>stream.h\<close> are not among the sources):
  \<^item> a \<open>Device\<close> is a value object exposing \<open>device_id()\<close> and \<open>enum_type()\<close>, over a type
    \<open>'k\<close> of device kinds;
  \<^item> a \<open>Symbol<Device>\<close> is a handle: an address in a table of devices, or null. Reading
    through a null or dangling handle is the error \<open>NullDereference\<close>;
  \<^item> a \<open>Stream\<close> has the members \<open>thread_ctx_\<close>, \<open>device_\<close>, \<open>stream_role_\<close>,
    \<open>stream_type_\<close> and \<open>device_ctx_\<close> (Isabelle names cannot end in an underscore, so the
    fields drop it); a pointer member is \<open>None\<close> while it is null.
\<close>

record 'k Device =
  device_id :: int
  enum_type :: 'k

type_synonym 'k device_table = "nat \<rightharpoonup> 'k Device"

definition deref :: "'k device_table \<Rightarrow> nat option \<Rightarrow> error + 'k Device" where
  "deref devices symbol =
     (case symbol of None \<Rightarrow> Inl NullDereference
      | Some a \<Rightarrow> (case devices a of None \<Rightarrow> Inl NullDereference | Some d \<Rightarrow> Inr d))"

record ('c, 'r, 'st) Stream =
  thread_ctx :: "nat option"
  device :: "nat option"
  stream_role :: "'r option"
  stream_type :: "'st option"
  device_ctx :: "'c option"

text \<open>
  The virtual members of a \<open>StreamType\<close> that the theorems use. \<open>InitDeviceCtx\<close> receives a
  pointer to a device-context slot and a pointer to a stream, and may write through
  both: it maps the two pointees to their new contents. It returns \<open>void\<close>, so it has no
  error result.
\<close>

record ('c, 's) StreamType =
  device_tag :: string
  InitDeviceCtx :: "'c option \<Rightarrow> 's \<Rightarrow> 'c option \<times> 's"

text \<open>
  \<^verbatim>\<open>device_helper_stream_type.h\<close>: \<open>device_tag()\<close> returns \<open>"cpu"\<close> and the body of
  \<open>InitDeviceCtx\<close> is empty.
\<close>

definition DeviceHelperStreamType :: "('c, 's) StreamType" where
  "DeviceHelperStreamType =
     \<lparr>device_tag = ''cpu'', InitDeviceCtx = (\<lambda>device_ctx stream. (device_ctx, stream))\<rparr>"

text \<open>
  \<open>Stream::__Init__\<close>. \<open>GetStreamType\<close> stands for
  \<open>StreamRoleSwitch<GetStreamType>(stream_role, device->enum_type())\<close>, whose \<open>Maybe\<close> result
  is \<open>None\<close> when it holds an error; \<open>CHECK_JUST\<close> aborts the process on an error.
  \<open>object\<close> maps a \<open>StreamType\<close> pointer to the object it points to. The slot handed to
  \<open>InitDeviceCtx\<close> is \<open>mut_device_ctx()\<close>, the stream's own member, so what the callee
  leaves in the slot is the stream's \<open>device_ctx_\<close> afterwards.
\<close>

definition Stream_Init ::
  "('r \<Rightarrow> 'k \<Rightarrow> 'st option) \<Rightarrow> ('st \<Rightarrow> ('c, ('c, 'r, 'st) Stream) StreamType) \<Rightarrow> 'k device_table
    \<Rightarrow> ('c, 'r, 'st) Stream \<Rightarrow> nat option \<Rightarrow> nat option \<Rightarrow> 'r \<Rightarrow> error + ('c, 'r, 'st) Stream" where
  "Stream_Init GetStreamType object devices this thread_ctx' device' stream_role' =
     (let s1 = this\<lparr>thread_ctx := thread_ctx'\<rparr>;
          s2 = s1\<lparr>device := device'\<rparr>;
          s3 = s2\<lparr>stream_role := Some stream_role'\<rparr>
      in case deref devices device' of
           Inl e \<Rightarrow> Inl e
         | Inr d \<Rightarrow>
             (case GetStreamType stream_role' (enum_type d) of
                None \<Rightarrow> Inl CheckFailed
              | Some st \<Rightarrow>
                  (let s4 = s3\<lparr>stream_type := Some st\<rparr>;
                       (slot, s5) = InitDeviceCtx (object st) (device_ctx s4) s4
                   in Inr (s5\<lparr>device_ctx := slot\<rparr>))))"

text \<open>\<open>int64_t Stream::device_id() const { return device_->device_id(); }\<close>\<close>

definition Stream_device_id :: "'k device_table \<Rightarrow> ('c, 'r, 'st) Stream \<Rightarrow> error + int" where
  "Stream_device_id devices this =
     (case deref devices (device this) of Inl e \<Rightarrow> Inl e | Inr d \<Rightarrow> Inr (device_id d))"

text \<open>\<open>const StreamType& Stream::stream_type() const { return *stream_type_; }\<close>\<close>

definition Stream_stream_type :: "('c, 'r, 'st) Stream \<Rightarrow> error + 'st" where
  "Stream_stream_type this =
     (case stream_type this of None \<Rightarrow> Inl NullDereference | Some st \<Rightarrow> Inr st)"


text \<open>
  The member functions that \<^verbatim>\<open>stream.cpp\<close> defines or calls, as calls on one stream, and a
  run of a list of them. The two \<open>const\<close> members leave the stream as it is.
  \<open>mut_device_ctx()\<close> is called at line 31 and its result is passed where
  \<open>InitDeviceCtx\<close> takes a \<open>std::unique_ptr<DeviceCtx>*\<close>: it returns a writable pointer to
  \<open>device_ctx_\<close>, and \<open>call_mut_device_ctx c\<close> is a caller storing \<open>c\<close> through that
  pointer.
\<close>

datatype ('c, 'r) Stream_member =
  call_Init "nat option" "nat option" 'r
  | call_device_id
  | call_stream_type
  | call_mut_device_ctx "'c option"

fun is_Init :: "('c, 'r) Stream_member \<Rightarrow> bool" where
  "is_Init (call_Init t d r) = True"
| "is_Init _ = False"

fun Stream_call ::
  "('r \<Rightarrow> 'k \<Rightarrow> 'st option) \<Rightarrow> ('st \<Rightarrow> ('c, ('c, 'r, 'st) Stream) StreamType) \<Rightarrow> 'k device_table
    \<Rightarrow> ('c, 'r) Stream_member \<Rightarrow> ('c, 'r, 'st) Stream \<Rightarrow> error + ('c, 'r, 'st) Stream" where
  "Stream_call G object devices (call_Init t d r) this = Stream_Init G object devices this t d r"
| "Stream_call G object devices call_device_id this =
     (case Stream_device_id devices this of Inl e \<Rightarrow> Inl e | Inr _ \<Rightarrow> Inr this)"
| "Stream_call G object devices call_stream_type this =
     (case Stream_stream_type this of Inl e \<Rightarrow> Inl e | Inr _ \<Rightarrow> Inr this)"
| "Stream_call G object devices (call_mut_device_ctx c) this = Inr (this\<lparr>device_ctx := c\<rparr>)"

text \<open>
  The arguments of the most recent \<open>__Init__\<close>: of the last one in a list of calls, and of
  the last one in a list of calls that follows an \<open>__Init__(t, d, r)\<close>.
\<close>

fun last_Init :: "('c, 'r) Stream_member list \<Rightarrow> (nat option \<times> nat option \<times> 'r) option" where
  "last_Init [] = None"
| "last_Init (c # cs) =
     (case last_Init cs of
        Some x \<Rightarrow> Some x
      | None \<Rightarrow> (case c of call_Init t d r \<Rightarrow> Some (t, d, r) | _ \<Rightarrow> None))"

definition latest_Init ::
  "nat option \<Rightarrow> nat option \<Rightarrow> 'r \<Rightarrow> ('c, 'r) Stream_member list \<Rightarrow> nat option \<times> nat option \<times> 'r" where
  "latest_Init t d r cs = (case last_Init cs of None \<Rightarrow> (t, d, r) | Some x \<Rightarrow> x)"

fun Stream_calls ::
  "('r \<Rightarrow> 'k \<Rightarrow> 'st option) \<Rightarrow> ('st \<Rightarrow> ('c, ('c, 'r, 'st) Stream) StreamType) \<Rightarrow> 'k device_table
    \<Rightarrow> ('c, 'r) Stream_member list \<Rightarrow> ('c, 'r, 'st) Stream \<Rightarrow> error + ('c, 'r, 'st) Stream" where
  "Stream_calls G object devices [] this = Inr this"
| "Stream_calls G object devices (c # cs) this =
     (case Stream_call G object devices c this of Inl e \<Rightarrow> Inl e
      | Inr this' \<Rightarrow> Stream_calls G object devices cs this')"

text \<open>
  \<open>device_\<close>, \<open>stream_role_\<close> and \<open>stream_type_\<close> have no setter: an \<open>InitDeviceCtx\<close> that is
  handed the stream cannot change them. The theorems about \<open>__Init__\<close> assume this of the
  \<open>StreamType\<close> objects.
\<close>

definition keeps_private_members :: "('st \<Rightarrow> ('c, ('c, 'r, 'st) Stream) StreamType) \<Rightarrow> bool" where
  "keeps_private_members object =
     (\<forall>st slot s. device (snd (InitDeviceCtx (object st) slot s)) = device s
        \<and> stream_role (snd (InitDeviceCtx (object st) slot s)) = stream_role s
        \<and> stream_type (snd (InitDeviceCtx (object st) slot s)) = stream_type s)"




text \<open>
  A small configuration the theorems are run on: role 1 on device kind 1 resolves to the
  \<open>DeviceHelperStreamType\<close>, nothing else is registered; devices 0 and 1 are of kind 1,
  device 2 of kind 2; a default-constructed stream has every pointer null.
\<close>

definition example_GetStreamType :: "nat \<Rightarrow> nat \<Rightarrow> unit option" where
  "example_GetStreamType r k = (if r = 1 \<and> k = 1 then Some () else None)"

definition example_object :: "unit \<Rightarrow> (nat, (nat, nat, unit) Stream) StreamType" where
  "example_object st = DeviceHelperStreamType"

definition example_devices :: "nat device_table" where
  "example_devices =
     [0 \<mapsto> \<lparr>device_id = 10, enum_type = 1\<rparr>, 1 \<mapsto> \<lparr>device_id = 11, enum_type = 1\<rparr>,
      2 \<mapsto> \<lparr>device_id = 12, enum_type = 2\<rparr>]"

definition default_Stream :: "(nat, nat, unit) Stream" where
  "default_Stream =
     \<lparr>thread_ctx = None, device = None, stream_role = None, stream_type = None, device_ctx = None\<rparr>"

text \<open>
  A second configuration with two registered pairs: role 1 on kind 1 resolves to
  \<open>StreamType\<close> object 0 and role 2 on kind 2 to object 1, both of them
  \<open>DeviceHelperStreamType\<close> objects.
\<close>

definition two_GetStreamType :: "nat \<Rightarrow> nat \<Rightarrow> nat option" where
  "two_GetStreamType r k =
     (if r = 1 \<and> k = 1 then Some 0 else if r = 2 \<and> k = 2 then Some 1 else None)"

definition two_object :: "nat \<Rightarrow> (nat, (nat, nat, nat) Stream) StreamType" where
  "two_object st = DeviceHelperStreamType"

definition null_Stream :: "(nat, nat, nat) Stream" where
  "null_Stream =
     \<lparr>thread_ctx = None, device = None, stream_role = None, stream_type = None, device_ctx = None\<rparr>"



subsection \<open>Invariants\<close>

text \<open>
  Invariants of a run of the status protocol: \<open>polls_ok\<close> holds of every state a run
  reaches, \<open>not_started\<close> of every state reached before the execution step.
\<close>

definition polls_ok :: "'m Instruction \<times> 'm \<times> bool list \<Rightarrow> bool" where
  "polls_ok st = (case st of (instr, mem, polls) \<Rightarrow>
     stable polls \<and> (status instr \<in> {Submitted, StatusInitialized, Executing} \<longrightarrow> True \<notin> set polls))"

definition not_started :: "Backend \<Rightarrow> 'm Instruction \<times> 'm \<times> bool list \<Rightarrow> bool" where
  "not_started backend st = (case st of (instr, mem, polls) \<Rightarrow>
     status instr \<in> (case backend of
                       Synchronous \<Rightarrow> {Submitted, StatusInitialized}
                     | Asynchronous \<Rightarrow> {Submitted, StatusInitialized, Executing})
     \<and> True \<notin> set polls)"



section \<open>Theorems\<close>

subsection \<open>Offset to index and back\<close>















subsection \<open>The two overloads of \<open>NdIndexToOffset\<close>\<close>

text \<open>
  On a calculator of \<open>N\<close> entries the two-argument overload with \<open>n = N\<close> differs from
  the one-argument overload by \<open>index[N-1] * (stride_[N-1] - 1)\<close>.
\<close>

lemma NdIndexToOffset_n_full:
  assumes "0 < N"
  shows "NdIndexToOffset_n N this index (int N) =
     Inr (NdIndexToOffset N this index - index ! (N - 1) + index ! (N - 1) * stride this ! (N - 1))"
proof -
  have guard: "k \<le> N \<Longrightarrow>
      fold (\<lambda>i offset. if int i < int N then offset + index ! i * stride this ! i else offset) [0..<k] 0
      = fold (\<lambda>i offset. offset + index ! i * stride this ! i) [0..<k] 0" for k
    by (induction k) simp_all
  obtain M where M: "N = Suc M" using assms by (cases N) auto
  show ?thesis
    using guard [of N] by (simp add: NdIndexToOffset_n_def NdIndexToOffset_def M)
qed

text \<open>
  Claim C9. The two overloads of \<open>NdIndexToOffset\<close> are claimed to agree on a calculator
  built with \<open>n = N\<close>. They do not: the one-argument overload adds \<open>index[N-1]\<close> as it is,
  the two-argument overload multiplies it by \<open>stride_[N-1]\<close>, which the constructor copied
  from \<open>strides[N-1]\<close>. For \<open>N = 2\<close>, dims \<open>{2, 2}\<close>, strides \<open>{4, 2}\<close> and index \<open>{0, 1}\<close> the
  first returns 1 and the second returns 2.
\<close>

theorem NdIndexToOffset_overloads_differ:
  "NdIndexToOffset 2 (IndexToOffsetWithStrideCalculator_ctor 2 \<lparr>stride = [0, 0]\<rparr> [2, 2] [4, 2]) [0, 1] = 1
   \<and> NdIndexToOffset_n 2 (IndexToOffsetWithStrideCalculator_ctor 2 \<lparr>stride = [0, 0]\<rparr> [2, 2] [4, 2]) [0, 1] 2
       = Inr 2"
  by (simp add: NdIndexToOffset_def NdIndexToOffset_n_def IndexToOffsetWithStrideCalculator_ctor_def
      InitStrides_def upt_rec)

subsection \<open>Equality of \<open>LogicalObjectId\<close>\<close>

lemma memcmp_eq_0_iff: "length xs = length ys \<Longrightarrow> memcmp xs ys = 0 \<longleftrightarrow> xs = ys"
  by (induction xs ys rule: list_induct2) auto

lemma length_bytes_of [simp]: "length (bytes_of n w) = n"
  by (simp add: bytes_of_def)

lemma bytes_of_inject:
  fixes v w :: "'a::len word"
  assumes "LENGTH('a) \<le> 8 * n" and "bytes_of n v = bytes_of n w"
  shows "v = w"
proof (rule bit_word_eqI)
  fix k assume k: "k < LENGTH('a)"
  then have i: "k div 8 < n" using assms(1) by (simp add: less_mult_imp_div_less mult.commute)
  have "bytes_of n v ! (k div 8) = bytes_of n w ! (k div 8)"
    using assms(2) by simp
  then have "(ucast (drop_bit (8 * (k div 8)) v) :: 8 word) = ucast (drop_bit (8 * (k div 8)) w)"
    using i by (simp add: bytes_of_def)
  then have "bit (ucast (drop_bit (8 * (k div 8)) v) :: 8 word) (k mod 8)
      = bit (ucast (drop_bit (8 * (k div 8)) w) :: 8 word) (k mod 8)"
    by simp
  then show "bit v k = bit w k"
    by (simp add: bit_ucast_iff bit_drop_bit_eq)
qed

lemma case_number_inject: "case_number a = case_number b \<longleftrightarrow> a = b"
  by (cases a; cases b) simp_all

text \<open>
  Claim C1. Two \<open>LogicalObjectId\<close> values compare equal (their representations agree byte
  for byte under \<open>memcmp\<close>) iff their tags and their payloads are equal; in particular
  \<open>Local(5)\<close> and \<open>Remote(5)\<close> are unequal.
\<close>

theorem LogicalObjectId_eq_iff:
  "LogicalObjectId_eq a b = (ptr_type_tag a = ptr_type_tag b \<and> ptr_type_payload a = ptr_type_payload b)
   \<and> \<not> LogicalObjectId_eq (Local 5) (Remote 5)"
proof -
  have p: "bytes_of 8 (v::64 word) = bytes_of 8 w \<longleftrightarrow> v = w" for v w
    using bytes_of_inject [of 8 v w] by auto
  have t: "bytes_of 4 (v::32 word) = bytes_of 4 w \<longleftrightarrow> v = w" for v w
    using bytes_of_inject [of 4 v w] by auto
  have "LogicalObjectId_eq a b = (representation a = representation b)" for a b
    unfolding LogicalObjectId_eq_def by (rule memcmp_eq_0_iff) (simp add: representation_def)
  then have eq: "LogicalObjectId_eq a b
      = (ptr_type_tag a = ptr_type_tag b \<and> ptr_type_payload a = ptr_type_payload b)" for a b
    by (auto simp: representation_def p t case_number_inject)
  show ?thesis
    by (simp add: eq Local_def Remote_def)
qed


subsection \<open>The status protocol\<close>

lemma stable_all_False: "True \<notin> set bs \<Longrightarrow> stable bs"
  by (induction bs) auto

lemma stable_snoc_True: "stable (bs @ [True]) = stable bs"
  by (induction bs) auto

lemma stable_snoc_False: "stable (bs @ [False]) = (True \<notin> set bs)"
  by (induction bs) (auto simp: list_all_iff)

lemma step_polls_ok:
  "polls_ok st \<Longrightarrow> step backend c st = Inr st' \<Longrightarrow> polls_ok st'"
  by (cases st; cases c; cases backend)
    (auto simp: polls_ok_def init_instruction_status_def compute_def completion_signal_def
      query_instruction_status_done_def delete_instruction_status_def stable_snoc_True
      stable_snoc_False stable_all_False split: if_splits)

lemma run_polls_ok:
  "polls_ok st \<Longrightarrow> run backend cs st = Inr st' \<Longrightarrow> polls_ok st'"
proof (induction cs arbitrary: st)
  case Nil
  then show ?case by simp
next
  case (Cons c cs)
  then show ?case
    by (auto split: sum.splits dest: step_polls_ok)
qed

lemma step_not_started:
  "not_started backend st \<Longrightarrow> c \<noteq> execution_step backend \<Longrightarrow> step backend c st = Inr st'
    \<Longrightarrow> not_started backend st'"
  by (cases st; cases c; cases backend)
    (auto simp: not_started_def init_instruction_status_def completion_signal_def compute_def
      query_instruction_status_done_def delete_instruction_status_def split: if_splits)

lemma run_not_started:
  "not_started backend st \<Longrightarrow> execution_step backend \<notin> set cs \<Longrightarrow> run backend cs st = Inr st'
    \<Longrightarrow> not_started backend st'"
proof (induction cs arbitrary: st)
  case Nil
  then show ?case by simp
next
  case (Cons c cs)
  from Cons.prems(3) obtain st1 where
    s1: "step backend c st = Inr st1" and r: "run backend cs st1 = Inr st'"
    by (auto split: sum.splits)
  have "c \<noteq> execution_step backend" and rest: "execution_step backend \<notin> set cs"
    using Cons.prems(2) by auto
  from step_not_started [OF Cons.prems(1) this(1) s1] have "not_started backend st1" .
  from Cons.IH [OF this rest r] show ?case .
qed

lemma run_append:
  "run backend (xs @ ys) st =
     (case run backend xs st of Inl e \<Rightarrow> Inl e | Inr st' \<Rightarrow> run backend ys st')"
  by (induction xs arbitrary: st) (auto split: sum.splits)

lemma step_polls_grow:
  "step backend c (instr, mem, polls) = Inr (instr', mem', polls') \<Longrightarrow>
     \<exists>qs. polls' = polls @ qs \<and> length qs = length (filter (\<lambda>c. c = Query) [c])"
  by (cases c) (auto split: sum.splits)

lemma run_polls_grow:
  "run backend cs (instr, mem, polls) = Inr (instr', mem', polls') \<Longrightarrow>
     \<exists>qs. polls' = polls @ qs \<and> length qs = length (filter (\<lambda>c. c = Query) cs)"
proof (induction cs arbitrary: instr mem polls)
  case Nil
  then show ?case by simp
next
  case (Cons c cs)
  from Cons.prems obtain i1 m1 p1 where
    s1: "step backend c (instr, mem, polls) = Inr (i1, m1, p1)"
    and r: "run backend cs (i1, m1, p1) = Inr (instr', mem', polls')"
    by (auto split: sum.splits)
  from step_polls_grow [OF s1] obtain qs1 where
    q1: "p1 = polls @ qs1" "length qs1 = length (filter (\<lambda>c. c = Query) [c])" by blast
  from Cons.IH [OF r] obtain qs2 where
    q2: "polls' = p1 @ qs2" "length qs2 = length (filter (\<lambda>c. c = Query) cs)" by blast
  have "polls' = polls @ (qs1 @ qs2)" using q1 q2 by simp
  moreover have "length (qs1 @ qs2) = length (filter (\<lambda>c. c = Query) (c # cs))"
    using q1 q2 by simp
  ultimately show ?case by blast
qed

text \<open>
  Claim C2. On a synchronous backend, for every payload (the no-op among them) and every
  device state: after \<open>init_instruction_status\<close> and \<open>compute\<close> the payload has run and the
  status is done; the poll that follows returns \<open>true\<close>, and the \<open>delete_instruction_status\<close>
  after it succeeds.
\<close>

theorem synchronous_lifecycle:
  "run Synchronous [Init, Compute] (\<lparr>payload = p, status = Submitted\<rparr>, mem, [])
     = Inr (\<lparr>payload = p, status = Done\<rparr>, p mem, [])
   \<and> run Synchronous [Init, Compute, Query, Delete] (\<lparr>payload = p, status = Submitted\<rparr>, mem, [])
     = Inr (\<lparr>payload = p, status = StatusDeleted\<rparr>, p mem, [True])
   \<and> run Synchronous [Init, Compute, Query, Delete] (\<lparr>payload = (\<lambda>m. m), status = Submitted\<rparr>, mem, [])
     = Inr (\<lparr>payload = (\<lambda>m. m), status = StatusDeleted\<rparr>, mem, [True])"
  by (simp add: init_instruction_status_def compute_def query_instruction_status_done_def
      delete_instruction_status_def)

text \<open>
  Claim C6. On either backend, in every run of calls on one instruction that starts from a
  submitted instruction and meets no error, the polls are stable (no \<open>true\<close> is followed by a
  \<open>false\<close>), and every poll made before the backend's execution step returns \<open>false\<close>. A poll after
  \<open>delete_instruction_status\<close> is an error, so the run covers the buffer up to its deletion.
\<close>

theorem done_signal_stable:
  assumes "status instr = Submitted"
    and "run backend cs (instr, mem, []) = Inr (instr', mem', polls)"
  shows "stable polls
    \<and> True \<notin> set (take (length (filter (\<lambda>c. c = Query)
                                 (takeWhile (\<lambda>c. c \<noteq> execution_step backend) cs))) polls)"
proof -
  have ok: "polls_ok (instr, mem, [])" and start: "not_started backend (instr, mem, [])"
    using assms(1) by (simp_all add: polls_ok_def not_started_def split: Backend.splits)
  from run_polls_ok [OF ok assms(2)] have "stable polls"
    by (simp add: polls_ok_def)
  moreover have "True \<notin> set (take (length (filter (\<lambda>c. c = Query)
      (takeWhile (\<lambda>c. c \<noteq> execution_step backend) cs))) polls)"
  proof -
    define before where "before = takeWhile (\<lambda>c. c \<noteq> execution_step backend) cs"
    define rest where "rest = dropWhile (\<lambda>c. c \<noteq> execution_step backend) cs"
    have cs: "cs = before @ rest" by (simp add: before_def rest_def)
    have nc: "execution_step backend \<notin> set before"
      unfolding before_def by (auto dest: set_takeWhileD)
    from assms(2) cs obtain i1 m1 p1 where
      r1: "run backend before (instr, mem, []) = Inr (i1, m1, p1)"
      and r2: "run backend rest (i1, m1, p1) = Inr (instr', mem', polls)"
      by (auto simp: run_append split: sum.splits)
    from run_not_started [OF start nc r1] have f: "True \<notin> set p1"
      by (simp add: not_started_def)
    from run_polls_grow [OF r1] have l: "length p1 = length (filter (\<lambda>c. c = Query) before)"
      by auto
    from run_polls_grow [OF r2] obtain qs where "polls = p1 @ qs" by blast
    then show ?thesis using f l by (simp add: before_def)
  qed
  ultimately show ?thesis by simp
qed

theorem done_signal_stable_witness:
  "run Asynchronous [Init, Query, Compute, Query, Signal, Query, Query, Delete]
      (\<lparr>payload = (\<lambda>m::nat. m + 1), status = Submitted\<rparr>, 0, [])
     = Inr (\<lparr>payload = (\<lambda>m::nat. m + 1), status = StatusDeleted\<rparr>, 1, [False, False, True, True])
   \<and> stable [False, False, True, True]
   \<and> take (length (filter (\<lambda>c. c = Query) (takeWhile (\<lambda>c. c \<noteq> execution_step Asynchronous)
          [Init, Query, Compute, Query, Signal, Query, Query, Delete]))) [False, False, True, True]
       = [False, False]"
proof -
  have start: "status \<lparr>payload = (\<lambda>m::nat. m + 1), status = Submitted\<rparr> = Submitted" by simp
  have r: "run Asynchronous [Init, Query, Compute, Query, Signal, Query, Query, Delete]
      (\<lparr>payload = (\<lambda>m::nat. m + 1), status = Submitted\<rparr>, 0, [])
     = Inr (\<lparr>payload = (\<lambda>m::nat. m + 1), status = StatusDeleted\<rparr>, 1, [False, False, True, True])"
    by (simp add: init_instruction_status_def compute_def query_instruction_status_done_def
        delete_instruction_status_def completion_signal_def)
  from done_signal_stable [OF start r] r show ?thesis by simp
qed

subsection \<open>Streams\<close>

lemma keeps_example_object: "keeps_private_members example_object"
  by (simp add: keeps_private_members_def example_object_def DeviceHelperStreamType_def)

lemma Stream_Init_resolved:
  assumes "devices a = Some dev" and "G r (enum_type dev) = Some st"
  shows "Stream_Init G object devices this t (Some a) r =
     Inr ((snd (InitDeviceCtx (object st) (device_ctx this)
                 (this\<lparr>thread_ctx := t, device := Some a, stream_role := Some r,
                     stream_type := Some st\<rparr>)))
          \<lparr>device_ctx := fst (InitDeviceCtx (object st) (device_ctx this)
                 (this\<lparr>thread_ctx := t, device := Some a, stream_role := Some r,
                     stream_type := Some st\<rparr>))\<rparr>)"
  using assms by (simp add: Stream_Init_def deref_def Let_def split_beta)

lemma Stream_Init_unresolved:
  assumes "devices a = Some dev" and "G r (enum_type dev) = None"
  shows "Stream_Init G object devices this t (Some a) r = Inl CheckFailed"
  using assms by (simp add: Stream_Init_def deref_def)

lemma Stream_Init_Inr:
  assumes "Stream_Init G object devices this t d r = Inr s"
  shows "\<exists>a dev st. d = Some a \<and> devices a = Some dev \<and> G r (enum_type dev) = Some st"
proof -
  from assms obtain dev where dev: "deref devices d = Inr dev"
    by (auto simp: Stream_Init_def split: sum.splits)
  then obtain a where a: "d = Some a" "devices a = Some dev"
    by (auto simp: deref_def split: option.splits)
  from assms dev obtain st where "G r (enum_type dev) = Some st"
    by (auto simp: Stream_Init_def split: option.splits)
  with a show ?thesis by blast
qed

lemma Stream_Init_members:
  assumes "keeps_private_members object"
    and "devices a = Some dev" and "G r (enum_type dev) = Some st"
    and "Stream_Init G object devices this t (Some a) r = Inr s"
  shows "device s = Some a \<and> stream_role s = Some r \<and> stream_type s = Some st"
proof -
  define s4 where
    "s4 = this\<lparr>thread_ctx := t, device := Some a, stream_role := Some r, stream_type := Some st\<rparr>"
  have s: "s = (snd (InitDeviceCtx (object st) (device_ctx this) s4))
               \<lparr>device_ctx := fst (InitDeviceCtx (object st) (device_ctx this) s4)\<rparr>"
    using assms(4) unfolding Stream_Init_resolved [where devices = devices and G = G, OF assms(2,3)] s4_def by simp
  have "device (snd (InitDeviceCtx (object st) (device_ctx this) s4)) = device s4"
    "stream_role (snd (InitDeviceCtx (object st) (device_ctx this) s4)) = stream_role s4"
    "stream_type (snd (InitDeviceCtx (object st) (device_ctx this) s4)) = stream_type s4"
    using assms(1) by (simp_all add: keeps_private_members_def)
  then show ?thesis
    by (simp add: s s4_def)
qed

lemma last_Init_None: "\<not> list_ex is_Init cs \<Longrightarrow> last_Init cs = None"
proof (induction cs)
  case Nil
  then show ?case by simp
next
  case (Cons c cs)
  then show ?case by (cases c) simp_all
qed

text \<open>
  What one call leaves of \<open>device_\<close>, \<open>stream_role_\<close> and \<open>stream_type_\<close>: an \<open>__Init__\<close>
  stores its arguments and the resolved type, every other call keeps the three members.
\<close>

lemma Stream_call_members:
  assumes "keeps_private_members object"
    and "Stream_call G object devices c s = Inr s1"
  shows "case c of
      call_Init t d r \<Rightarrow>
        device s1 = d \<and> stream_role s1 = Some r
        \<and> (\<exists>a dev st. d = Some a \<and> devices a = Some dev \<and> G r (enum_type dev) = Some st
              \<and> stream_type s1 = Some st)
    | _ \<Rightarrow> device s1 = device s \<and> stream_role s1 = stream_role s \<and> stream_type s1 = stream_type s"
proof (cases c)
  case (call_Init t d r)
  with assms(2) have init: "Stream_Init G object devices s t d r = Inr s1" by simp
  from Stream_Init_Inr [OF init] obtain a dev st where
    d: "d = Some a" and dev: "devices a = Some dev" and st: "G r (enum_type dev) = Some st"
    by blast
  from Stream_Init_members [where devices = devices and G = G, OF assms(1) dev st] init d
  have "device s1 = d" "stream_role s1 = Some r" "stream_type s1 = Some st" by simp_all
  with d dev st show ?thesis unfolding call_Init by auto
next
  case call_device_id
  with assms(2) show ?thesis by (auto split: sum.splits)
next
  case call_stream_type
  with assms(2) show ?thesis by (auto split: sum.splits)
next
  case (call_mut_device_ctx x)
  with assms(2) show ?thesis by auto
qed

lemma Stream_calls_members:
  assumes "keeps_private_members object"
  shows "Stream_calls G object devices cs s = Inr s' \<Longrightarrow>
    (case last_Init cs of
       None \<Rightarrow> device s' = device s \<and> stream_role s' = stream_role s \<and> stream_type s' = stream_type s
     | Some (t, d, r) \<Rightarrow>
         device s' = d \<and> stream_role s' = Some r
         \<and> (\<exists>a dev st. d = Some a \<and> devices a = Some dev \<and> G r (enum_type dev) = Some st
               \<and> stream_type s' = Some st))"
proof (induction cs arbitrary: s)
  case Nil
  then show ?case by simp
next
  case (Cons c cs)
  from Cons.prems obtain s1 where
    c: "Stream_call G object devices c s = Inr s1"
    and cs: "Stream_calls G object devices cs s1 = Inr s'"
    by (auto split: sum.splits)
  note one = Stream_call_members [OF assms c]
  note rest = Cons.IH [OF cs]
  show ?case
  proof (cases "last_Init cs")
    case (Some x)
    with rest show ?thesis by simp
  next
    case None
    with rest have same: "device s' = device s1" "stream_role s' = stream_role s1"
      "stream_type s' = stream_type s1"
      by simp_all
    show ?thesis
      using one None same by (cases c) auto
  qed
qed

lemma Stream_calls_const_only:
  "list_all (\<lambda>c. c = call_device_id \<or> c = call_stream_type) cs
    \<Longrightarrow> Stream_calls G object devices cs s = Inr s' \<Longrightarrow> s' = s"
proof (induction cs)
  case Nil
  then show ?case by simp
next
  case (Cons c cs)
  then show ?case by (auto split: sum.splits)
qed

text \<open>
  Claim C3. Let the device handle be valid. If no \<open>StreamType\<close> is registered for the role
  and the kind of the device, \<open>__Init__\<close> aborts (\<open>CHECK_JUST\<close> fails) and yields no stream;
  if one is registered, \<open>__Init__\<close> returns, and \<open>stream_type()\<close> of the stream is the
  registered one.
\<close>

theorem Stream_Init_resolves_or_aborts:
  assumes "devices a = Some dev"
  shows "(G r (enum_type dev) = None \<longrightarrow>
            Stream_Init G object devices this t (Some a) r = Inl CheckFailed)
    \<and> (\<forall>st. G r (enum_type dev) = Some st \<longrightarrow>
          (\<exists>s. Stream_Init G object devices this t (Some a) r = Inr s
             \<and> (keeps_private_members object \<longrightarrow> Stream_stream_type s = Inr st)))"
proof (intro conjI allI impI)
  assume "G r (enum_type dev) = None"
  with assms show "Stream_Init G object devices this t (Some a) r = Inl CheckFailed"
    by (simp add: Stream_Init_unresolved [where devices = devices and G = G])
next
  fix st assume st: "G r (enum_type dev) = Some st"
  from Stream_Init_resolved [where devices = devices and G = G, OF assms st, of object this t] obtain s where
    s: "Stream_Init G object devices this t (Some a) r = Inr s" by blast
  have "Stream_stream_type s = Inr st" if "keeps_private_members object"
    using Stream_Init_members [where devices = devices and G = G, OF that assms st s] by (simp add: Stream_stream_type_def)
  with s show "\<exists>s. Stream_Init G object devices this t (Some a) r = Inr s
      \<and> (keeps_private_members object \<longrightarrow> Stream_stream_type s = Inr st)"
    by blast
qed

theorem Stream_Init_resolves_or_aborts_witness:
  "Stream_Init example_GetStreamType example_object example_devices default_Stream None (Some 0) 2
       = Inl CheckFailed
   \<and> (\<exists>s. Stream_Init example_GetStreamType example_object example_devices default_Stream None (Some 0) 1
             = Inr s \<and> Stream_stream_type s = Inr ())"
proof -
  have dev: "example_devices 0 = Some \<lparr>device_id = 10, enum_type = 1\<rparr>"
    by (simp add: example_devices_def)
  have no: "example_GetStreamType 2 (enum_type \<lparr>device_id = 10, enum_type = 1 :: nat\<rparr>) = None"
    and yes: "example_GetStreamType 1 (enum_type \<lparr>device_id = 10, enum_type = 1 :: nat\<rparr>) = Some ()"
    by (simp_all add: example_GetStreamType_def)
  from Stream_Init_resolves_or_aborts [where devices = example_devices and G = example_GetStreamType
      and r = 2 and object = example_object and this = default_Stream and t = None, OF dev] no
  have abort: "Stream_Init example_GetStreamType example_object example_devices default_Stream
      None (Some 0) 2 = Inl CheckFailed"
    by blast
  from Stream_Init_resolves_or_aborts [where devices = example_devices and G = example_GetStreamType
      and r = 1 and object = example_object and this = default_Stream and t = None, OF dev]
    yes keeps_example_object
  have "\<exists>s. Stream_Init example_GetStreamType example_object example_devices default_Stream
      None (Some 0) 1 = Inr s \<and> Stream_stream_type s = Inr ()"
    by blast
  with abort show ?thesis by simp
qed

text \<open>
  Claim C4, as amended. If \<open>__Init__\<close> returns, it has stored the resolved \<open>StreamType\<close>
  in \<open>stream_type_\<close> and then called \<open>InitDeviceCtx\<close> of that type once, on the stream that
  already holds it, which gives \<open>device_ctx_\<close>. After any later run of member calls,
  \<open>device_\<close>, \<open>stream_role_\<close> and \<open>stream_type_\<close> hold what the most recent \<open>__Init__\<close>
  stored (no other member writes them), \<open>stream_type()\<close> and \<open>device_id()\<close> return that
  type and that device's id, and a run of \<open>device_id()\<close> and \<open>stream_type()\<close> calls alone
  leaves the whole stream as it is.
\<close>

theorem Stream_members_written_by_Init:
  assumes "keeps_private_members object"
    and "Stream_Init G object devices this t d r = Inr s"
    and "Stream_calls G object devices cs s = Inr s'"
  shows "(\<exists>a dev st. d = Some a \<and> devices a = Some dev \<and> G r (enum_type dev) = Some st
      \<and> s = (snd (InitDeviceCtx (object st) (device_ctx this)
                 (this\<lparr>thread_ctx := t, device := d, stream_role := Some r,
                     stream_type := Some st\<rparr>)))
            \<lparr>device_ctx := fst (InitDeviceCtx (object st) (device_ctx this)
                 (this\<lparr>thread_ctx := t, device := d, stream_role := Some r,
                     stream_type := Some st\<rparr>))\<rparr>)
    \<and> (case latest_Init t d r cs of (t', d', r') \<Rightarrow>
          device s' = d' \<and> stream_role s' = Some r'
          \<and> (\<exists>a' dev' st'. d' = Some a' \<and> devices a' = Some dev'
                \<and> G r' (enum_type dev') = Some st'
                \<and> Stream_stream_type s' = Inr st'
                \<and> Stream_device_id devices s' = Inr (device_id dev')))
    \<and> (list_all (\<lambda>c. c = call_device_id \<or> c = call_stream_type) cs \<longrightarrow> s' = s)"
proof (intro conjI)
  from Stream_Init_Inr [OF assms(2)] obtain a dev st where
    d: "d = Some a" and dev: "devices a = Some dev" and st: "G r (enum_type dev) = Some st"
    by blast
  have form: "s = (snd (InitDeviceCtx (object st) (device_ctx this)
                 (this\<lparr>thread_ctx := t, device := d, stream_role := Some r,
                     stream_type := Some st\<rparr>)))
          \<lparr>device_ctx := fst (InitDeviceCtx (object st) (device_ctx this)
                 (this\<lparr>thread_ctx := t, device := d, stream_role := Some r,
                     stream_type := Some st\<rparr>))\<rparr>"
    using assms(2) unfolding d Stream_Init_resolved [where devices = devices and G = G, OF dev st]
    by simp
  with d dev st show "\<exists>a dev st. d = Some a \<and> devices a = Some dev \<and> G r (enum_type dev) = Some st
      \<and> s = (snd (InitDeviceCtx (object st) (device_ctx this)
                 (this\<lparr>thread_ctx := t, device := d, stream_role := Some r,
                     stream_type := Some st\<rparr>)))
            \<lparr>device_ctx := fst (InitDeviceCtx (object st) (device_ctx this)
                 (this\<lparr>thread_ctx := t, device := d, stream_role := Some r,
                     stream_type := Some st\<rparr>))\<rparr>"
    by blast
  have first: "device s = d" "stream_role s = Some r" "stream_type s = Some st"
    using Stream_Init_members [where devices = devices and G = G, OF assms(1) dev st] assms(2) d
    by simp_all
  obtain t' d' r' where latest: "latest_Init t d r cs = (t', d', r')"
    by (cases "latest_Init t d r cs") auto
  have "device s' = d' \<and> stream_role s' = Some r'
      \<and> (\<exists>a' dev' st'. d' = Some a' \<and> devices a' = Some dev' \<and> G r' (enum_type dev') = Some st'
            \<and> stream_type s' = Some st')"
  proof (cases "last_Init cs")
    case None
    with latest have "t' = t" "d' = d" "r' = r" by (simp_all add: latest_Init_def)
    moreover from Stream_calls_members [OF assms(1,3)] None
    have "device s' = device s" "stream_role s' = stream_role s" "stream_type s' = stream_type s"
      by simp_all
    ultimately show ?thesis using first d dev st by auto
  next
    case (Some x)
    with latest have "x = (t', d', r')" by (simp add: latest_Init_def)
    with Stream_calls_members [OF assms(1,3)] Some show ?thesis by simp
  qed
  then obtain a' dev' st' where
    m: "device s' = d'" "stream_role s' = Some r'" "d' = Some a'" "devices a' = Some dev'"
      "G r' (enum_type dev') = Some st'" "stream_type s' = Some st'"
    by blast
  have "Stream_stream_type s' = Inr st'" "Stream_device_id devices s' = Inr (device_id dev')"
    using m by (simp_all add: Stream_stream_type_def Stream_device_id_def deref_def)
  with m show "case latest_Init t d r cs of (t', d', r') \<Rightarrow>
          device s' = d' \<and> stream_role s' = Some r'
          \<and> (\<exists>a' dev' st'. d' = Some a' \<and> devices a' = Some dev'
                \<and> G r' (enum_type dev') = Some st'
                \<and> Stream_stream_type s' = Inr st'
                \<and> Stream_device_id devices s' = Inr (device_id dev'))"
    unfolding latest by auto
  show "list_all (\<lambda>c. c = call_device_id \<or> c = call_stream_type) cs \<longrightarrow> s' = s"
    using Stream_calls_const_only [OF _ assms(3)] by blast
qed

theorem Stream_members_written_by_Init_witness:
  "Stream_Init two_GetStreamType two_object example_devices null_Stream (Some 7) (Some 1) 1
       = Inr \<lparr>thread_ctx = Some 7, device = Some 1, stream_role = Some 1, stream_type = Some 0,
              device_ctx = None\<rparr>
   \<and> Stream_calls two_GetStreamType two_object example_devices
         [call_device_id, call_Init None (Some 2) 2, call_mut_device_ctx (Some 5), call_stream_type]
         \<lparr>thread_ctx = Some 7, device = Some 1, stream_role = Some 1, stream_type = Some 0,
            device_ctx = None\<rparr>
       = Inr \<lparr>thread_ctx = None, device = Some 2, stream_role = Some 2, stream_type = Some 1,
              device_ctx = Some 5\<rparr>
   \<and> latest_Init (Some 7) (Some 1) (1::nat)
         [call_device_id, call_Init None (Some 2) 2, call_mut_device_ctx (Some (5::nat)), call_stream_type]
       = (None, Some 2, 2)
   \<and> Stream_stream_type
         \<lparr>thread_ctx = None, device = Some 2, stream_role = Some (2::nat), stream_type = Some (1::nat),
            device_ctx = Some (5::nat)\<rparr> = Inr 1
   \<and> Stream_device_id example_devices
         \<lparr>thread_ctx = None, device = Some 2, stream_role = Some (2::nat), stream_type = Some (1::nat),
            device_ctx = Some (5::nat)\<rparr> = Inr 12"
proof -
  have keeps: "keeps_private_members two_object"
    by (simp add: keeps_private_members_def two_object_def DeviceHelperStreamType_def)
  have init: "Stream_Init two_GetStreamType two_object example_devices null_Stream (Some 7) (Some 1) 1
      = Inr \<lparr>thread_ctx = Some 7, device = Some 1, stream_role = Some 1, stream_type = Some 0,
             device_ctx = None\<rparr>"
    by (simp add: example_devices_def two_GetStreamType_def two_object_def null_Stream_def
        Stream_Init_def deref_def DeviceHelperStreamType_def)
  have calls: "Stream_calls two_GetStreamType two_object example_devices
        [call_device_id, call_Init None (Some 2) 2, call_mut_device_ctx (Some 5), call_stream_type]
        \<lparr>thread_ctx = Some 7, device = Some 1, stream_role = Some 1, stream_type = Some 0,
           device_ctx = None\<rparr>
      = Inr \<lparr>thread_ctx = None, device = Some 2, stream_role = Some 2, stream_type = Some 1,
             device_ctx = Some 5\<rparr>"
    by (simp add: example_devices_def two_GetStreamType_def two_object_def Stream_Init_def
        deref_def DeviceHelperStreamType_def Stream_device_id_def Stream_stream_type_def)
  have latest: "latest_Init (Some 7) (Some 1) (1::nat)
        [call_device_id, call_Init None (Some 2) 2, call_mut_device_ctx (Some (5::nat)), call_stream_type]
      = (None, Some 2, 2)"
    by (simp add: latest_Init_def)
  have dev: "example_devices 2 = Some \<lparr>device_id = 12, enum_type = 2\<rparr>"
    by (simp add: example_devices_def)
  note r = Stream_members_written_by_Init [OF keeps init calls, THEN conjunct2, THEN conjunct1]
  from r dev have "Stream_stream_type
         \<lparr>thread_ctx = None, device = Some 2, stream_role = Some (2::nat), stream_type = Some (1::nat),
            device_ctx = Some (5::nat)\<rparr> = Inr 1
     \<and> Stream_device_id example_devices
         \<lparr>thread_ctx = None, device = Some 2, stream_role = Some (2::nat), stream_type = Some (1::nat),
            device_ctx = Some (5::nat)\<rparr> = Inr 12"
    unfolding latest by (auto simp: two_GetStreamType_def split: if_splits)
  with init calls latest show ?thesis by simp
qed

text \<open>
  Claim C4 as it was stated, that neither member is ever reassigned after the
  initialization call, fails: nothing in \<open>__Init__\<close> prevents a second call, which stores a
  new device and a new \<open>StreamType\<close>, and a write through \<open>mut_device_ctx()\<close> replaces
  \<open>device_ctx_\<close>.
\<close>

theorem Stream_reassigned_counterexample:
  "Stream_Init two_GetStreamType two_object example_devices null_Stream None (Some 0) 1
       = Inr \<lparr>thread_ctx = None, device = Some 0, stream_role = Some 1, stream_type = Some 0,
              device_ctx = None\<rparr>
   \<and> Stream_calls two_GetStreamType two_object example_devices [call_Init None (Some 2) 2]
         \<lparr>thread_ctx = None, device = Some 0, stream_role = Some 1, stream_type = Some 0,
            device_ctx = None\<rparr>
       = Inr \<lparr>thread_ctx = None, device = Some 2, stream_role = Some 2, stream_type = Some 1,
              device_ctx = None\<rparr>
   \<and> Stream_calls two_GetStreamType two_object example_devices [call_mut_device_ctx (Some 5)]
         \<lparr>thread_ctx = None, device = Some 0, stream_role = Some 1, stream_type = Some 0,
            device_ctx = None\<rparr>
       = Inr \<lparr>thread_ctx = None, device = Some 0, stream_role = Some 1, stream_type = Some 0,
              device_ctx = Some 5\<rparr>"
  by (simp add: example_devices_def two_GetStreamType_def two_object_def null_Stream_def
      Stream_Init_def deref_def DeviceHelperStreamType_def)

text \<open>
  Claim C5. After \<open>__Init__\<close> with a device handle, and after any later member calls other
  than \<open>__Init__\<close>, \<open>device_id()\<close> of the stream is, for every state \<open>devices'\<close> of the
  device table, what the handle passed to \<open>__Init__\<close> gives in that state: the stream reads
  through the handle and keeps no copy of the id.
\<close>

theorem Stream_device_id_reads_through:
  assumes "keeps_private_members object"
    and "Stream_Init G object devices this t d r = Inr s"
    and "\<not> list_ex is_Init cs"
    and "Stream_calls G object devices cs s = Inr s'"
  shows "Stream_device_id devices' s' =
     (case deref devices' d of Inl e \<Rightarrow> Inl e | Inr dev \<Rightarrow> Inr (device_id dev))"
proof -
  from Stream_Init_Inr [OF assms(2)] obtain a dev st where
    d: "d = Some a" and dev: "devices a = Some dev" and st: "G r (enum_type dev) = Some st"
    by blast
  from Stream_Init_members [where devices = devices and G = G, OF assms(1) dev st] assms(2) d
  have "device s = d" by simp
  moreover from Stream_calls_members [OF assms(1,4)] last_Init_None [OF assms(3)]
  have "device s' = device s" by simp
  ultimately show ?thesis by (simp add: Stream_device_id_def)
qed

theorem Stream_device_id_reads_through_witness:
  "Stream_Init example_GetStreamType example_object example_devices default_Stream None (Some 1) 1
       = Inr \<lparr>thread_ctx = None, device = Some 1, stream_role = Some 1, stream_type = Some (),
              device_ctx = None\<rparr>
   \<and> Stream_device_id (example_devices(1 \<mapsto> \<lparr>device_id = 99, enum_type = 1\<rparr>))
         \<lparr>thread_ctx = None, device = Some 1, stream_role = Some (1::nat), stream_type = Some (),
            device_ctx = (None :: nat option)\<rparr> = Inr 99"
proof -
  have init: "Stream_Init example_GetStreamType example_object example_devices default_Stream
        None (Some 1) 1
      = Inr \<lparr>thread_ctx = None, device = Some 1, stream_role = Some 1, stream_type = Some (),
             device_ctx = None\<rparr>"
    by (simp add: example_devices_def example_GetStreamType_def example_object_def
        default_Stream_def Stream_Init_def deref_def DeviceHelperStreamType_def)
  have no_init: "\<not> list_ex is_Init [call_device_id, call_stream_type :: (nat, nat) Stream_member]"
    by simp
  have calls: "Stream_calls example_GetStreamType example_object example_devices
        [call_device_id, call_stream_type]
        \<lparr>thread_ctx = None, device = Some 1, stream_role = Some 1, stream_type = Some (),
           device_ctx = None\<rparr>
      = Inr \<lparr>thread_ctx = None, device = Some 1, stream_role = Some 1, stream_type = Some (),
             device_ctx = None\<rparr>"
    by (simp add: example_devices_def Stream_device_id_def Stream_stream_type_def deref_def)
  from Stream_device_id_reads_through [OF keeps_example_object init no_init calls,
      of "example_devices(1 \<mapsto> \<lparr>device_id = 99, enum_type = 1\<rparr>)"]
  show ?thesis using init by (simp add: deref_def)
qed




text \<open>
  Claim C8. \<open>InitDeviceCtx\<close> of the \<open>DeviceHelperStreamType\<close> leaves the device-context slot
  and the stream it is handed as they are.
\<close>

theorem DeviceHelperStreamType_InitDeviceCtx_noop:
  "InitDeviceCtx DeviceHelperStreamType slot stream = (slot, stream)"
  by (simp add: DeviceHelperStreamType_def)

end
